theory Spec2Isabelle
  imports Complex_Main "HOL-Library.Word"
begin

section \<open>The A-weighted sound level meter (SPL_Meter.h, SPL_Meter.cpp)\<close>

text \<open>
  The class \<open>SPL_Meter\<close> turns a buffer of 256 raw ADC samples into an A-weighted sound
  pressure level and keeps an exponentially smoothed reading.

  Conventions of the embedding.
  \<^item> \<open>uint32_t\<close> is \<open>32 word\<close>: the accumulation of the samples wraps modulo \<open>2 ^ 32\<close>
    as in the source.
  \<^item> The arithmetic of \<open>float32_t\<close> and \<open>float\<close> is read in two ways. In the exact
    reading (\<open>process\<close> and its steps) a value is the real number it denotes and
    \<open>+\<close>, \<open>-\<close>, \<open>*\<close>, \<open>/\<close>, \<open>sqrtf\<close>, \<open>powf\<close>, \<open>log10f\<close> are the exact operations on the
    reals, in the order the source applies them: this is what the lines compute up to
    rounding. In the binary32 reading (the definitions whose names end in \<open>_f32\<close>)
    every operation rounds its exact result to the nearest binary32 value, ties to even;
    it is used where a statement depends on the rounding.
  \<^item> An array declared with fewer initializers than elements is zero-filled, as
    aggregate initialization does.
  \<^item> The transform \<open>arm_rfft_fast_f32\<close> belongs to the CMSIS-DSP library; \<open>process\<close>
    takes it as a parameter. It receives the input buffer and returns the input buffer
    as the library leaves it together with the packed output buffer.
\<close>

type_synonym uint32 = "32 word"
type_synonym float32 = real

subsection \<open>Constants of SPL_Meter.h\<close>

definition NUM_SAMPLES :: nat where
  "NUM_SAMPLES = 256"

definition SAMPLING_FREQUENCY :: nat where
  "SAMPLING_FREQUENCY = 16000"

definition ADC_REF_VOLTAGE :: float32 where
  "ADC_REF_VOLTAGE = 3.3"

definition ADC_RESOLUTION :: nat where
  "ADC_RESOLUTION = 4096"

definition SMOOTHING_FACTOR :: float32 where
  "SMOOTHING_FACTOR = 0.1"

definition CALIBRATION_OFFSET_DB :: float32 where
  "CALIBRATION_OFFSET_DB = - 30.0"

subsection \<open>Lookup tables of SPL_Meter.cpp\<close>

text \<open>
  \<open>T a[n] = {...}\<close> with the listed initializers: the remaining elements are zero.
\<close>

definition zero_filled :: "nat \<Rightarrow> float32 list \<Rightarrow> float32 list" where
  "zero_filled n initializers = initializers @ replicate (n - length initializers) 0"

text \<open>\<open>static const float32_t HANN_WINDOW_LUT[256]\<close>, lines 17 to 41.\<close>

definition HANN_WINDOW_LUT_initializers :: "float32 list" where
  "HANN_WINDOW_LUT_initializers =
    [0.00000, 0.00015, 0.00061, 0.00137, 0.00244, 0.00381, 0.00548, 0.00745, 0.00972, 0.01228,
     0.01513, 0.01827, 0.02169, 0.02539, 0.02937, 0.03362, 0.03813, 0.04290, 0.04793, 0.05320,
     0.05872, 0.06448, 0.07048, 0.07671, 0.08317, 0.08986, 0.09677, 0.10390, 0.11124, 0.11879,
     0.12655, 0.13451, 0.14266, 0.15099, 0.15951, 0.16821, 0.17709, 0.18613, 0.19534, 0.20471,
     0.21423, 0.22390, 0.23371, 0.24366, 0.25374, 0.26395, 0.27428, 0.28472, 0.29528, 0.30594,
     0.31670, 0.32756, 0.33850, 0.34954, 0.36066, 0.37186, 0.38313, 0.39447, 0.40588, 0.41734,
     0.42886, 0.44042, 0.45203, 0.46368, 0.47536, 0.48708, 0.49882, 0.51058, 0.52236, 0.53415,
     0.54595, 0.55775, 0.56956, 0.58136, 0.59315, 0.60493, 0.61670, 0.62844, 0.64017, 0.65187,
     0.66355, 0.67520, 0.68681, 0.69838, 0.70991, 0.72139, 0.73281, 0.74418, 0.75548, 0.76672,
     0.77789, 0.78898, 0.80000, 0.81093, 0.82177, 0.83251, 0.84315, 0.85368, 0.86410, 0.87440,
     0.88458, 0.89464, 0.90457, 0.91436, 0.92402, 0.93354, 0.94291, 0.95212, 0.96116, 0.97004,
     0.97874, 0.98726, 0.99560, 1.00000, 0.99560, 0.98726, 0.97874, 0.97004, 0.96116, 0.95212,
     0.94291, 0.93354, 0.92402, 0.91436, 0.90457, 0.89464, 0.88458, 0.87440, 0.86410, 0.85368,
     0.84315, 0.83251, 0.82177, 0.81093, 0.80000, 0.78898, 0.77789, 0.76672, 0.75548, 0.74418,
     0.73281, 0.72139, 0.70991, 0.69838, 0.68681, 0.67520, 0.66355, 0.65187, 0.64017, 0.62844,
     0.61670, 0.60493, 0.59315, 0.58136, 0.56956, 0.55775, 0.54595, 0.53415, 0.52236, 0.51058,
     0.49882, 0.48708, 0.47536, 0.46368, 0.45203, 0.44042, 0.42886, 0.41734, 0.40588, 0.39447,
     0.38313, 0.37186, 0.36066, 0.34954, 0.33850, 0.32756, 0.31670, 0.30594, 0.29528, 0.28472,
     0.27428, 0.26395, 0.25374, 0.24366, 0.23371, 0.22390, 0.21423, 0.20471, 0.19534, 0.18613,
     0.17709, 0.16821, 0.15951, 0.15099, 0.14266, 0.13451, 0.12655, 0.11879, 0.11124, 0.10390,
     0.09677, 0.08986, 0.08317, 0.07671, 0.07048, 0.06448, 0.05872, 0.05320, 0.04793, 0.04290,
     0.03813, 0.03362, 0.02937, 0.02539, 0.02169, 0.01827, 0.01513, 0.01228, 0.00972, 0.00745,
     0.00548, 0.00381, 0.00244, 0.00137, 0.00061, 0.00015]"

definition HANN_WINDOW_LUT :: "float32 list" where
  "HANN_WINDOW_LUT = zero_filled 256 HANN_WINDOW_LUT_initializers"

text \<open>\<open>static const float32_t A_WEIGHTING_LUT_SQUARED[128]\<close>, lines 47 to 60.\<close>

definition A_WEIGHTING_LUT_SQUARED_initializers :: "float32 list" where
  "A_WEIGHTING_LUT_SQUARED_initializers =
    [0.1287, 0.2120, 0.3162, 0.4365, 0.5623, 0.6813, 0.7852, 0.8692, 0.9333, 0.9772,
     1.0000, 1.0000, 0.9853, 0.9661, 0.9333, 0.8913, 0.8414, 0.7852, 0.7244, 0.6607,
     0.5957, 0.5309, 0.4677, 0.4074, 0.3548, 0.3020, 0.2512, 0.2000, 0.1585, 0.1259,
     0.1000, 0.0794, 0.0631, 0.0501, 0.0400, 0.0316, 0.0251, 0.0200, 0.0158, 0.0126,
     0.0100, 0.0079, 0.0063, 0.0050, 0.0040, 0.0032, 0.0025, 0.0020, 0.0016, 0.0013,
     0.0010, 0.0008, 0.0006, 0.0005, 0.0004, 0.0003, 0.0003, 0.0002, 0.0002, 0.0001,
     0.0001, 0.0001, 0.0001, 0.0001, 0.0000, 0.0000, 0.0000, 0.0000, 0.0000, 0.0000,
     0.0000, 0.0000, 0.0000, 0.0000, 0.0000, 0.0000, 0.0000, 0.0000, 0.0000, 0.0000,
     0.0000, 0.0000, 0.0000, 0.0000, 0.0000, 0.0000, 0.0000, 0.0000, 0.0000, 0.0000,
     0.0000, 0.0000, 0.0000, 0.0000, 0.0000, 0.0000, 0.0000, 0.0000, 0.0000, 0.0000,
     0.0000, 0.0000, 0.0000, 0.0000, 0.0000, 0.0000, 0.0000, 0.0000, 0.0000, 0.0000,
     0.0000, 0.0000, 0.0000, 0.0000, 0.0000, 0.0000, 0.0000, 0.0000]"

definition A_WEIGHTING_LUT_SQUARED :: "float32 list" where
  "A_WEIGHTING_LUT_SQUARED = zero_filled 128 A_WEIGHTING_LUT_SQUARED_initializers"

text \<open>\<open>static const float32_t MIC_CORRECTION_LUT_SQUARED[128]\<close>, lines 62 to 76.\<close>

definition MIC_CORRECTION_LUT_SQUARED_initializers :: "float32 list" where
  "MIC_CORRECTION_LUT_SQUARED_initializers =
    [1.1834, 1.1220, 1.0965, 1.0715, 1.0471, 1.0233, 1.0000, 0.9886, 0.9772, 0.9772,
     0.9772, 0.9886, 0.9886, 0.9886, 1.0000, 1.0000, 1.0000, 1.0000, 0.9886, 0.9886,
     0.9886, 0.9772, 0.9772, 0.9772, 0.9661, 0.9661, 0.9550, 0.9550, 0.9441, 0.9441,
     0.9333, 0.9333, 0.9226, 0.9226, 0.9120, 0.9120, 0.9016, 0.9016, 0.8913, 0.8913,
     0.8810, 0.8810, 0.8710, 0.8710, 0.8610, 0.8610, 0.8511, 0.8511, 0.8414, 0.8414,
     0.8318, 0.8318, 0.8222, 0.8222, 0.8128, 0.8128, 0.8035, 0.8035, 0.7943, 0.7943,
     0.7852, 0.7852, 0.7762, 0.7762, 0.7674, 0.7674, 0.7586, 0.7586, 0.7499, 0.7499,
     0.7413, 0.7413, 0.7328, 0.7328, 0.7244, 0.7244, 0.7161, 0.7161, 0.7079, 0.7079,
     0.6998, 0.6998, 0.6918, 0.6918, 0.6839, 0.6839, 0.6761, 0.6761, 0.6683, 0.6683,
     0.6607, 0.6607, 0.6531, 0.6531, 0.6457, 0.6457, 0.6383, 0.6383, 0.6310, 0.6310,
     0.6237, 0.6237, 0.6166, 0.6166, 0.6095, 0.6095, 0.6026, 0.6026, 0.5957, 0.5957,
     0.5888, 0.5888, 0.5821, 0.5821, 0.5754, 0.5754, 0.5688, 0.5688, 0.5623, 0.5623,
     0.5559, 0.5559, 0.5495, 0.5495, 0.5433, 0.5433, 0.5370, 0.5370]"

definition MIC_CORRECTION_LUT_SQUARED :: "float32 list" where
  "MIC_CORRECTION_LUT_SQUARED = zero_filled 128 MIC_CORRECTION_LUT_SQUARED_initializers"

subsection \<open>The object and its constructor\<close>

text \<open>
  The data members of the class. \<open>m_fft_instance\<close> is the library's transform context
  and lives in the transform parameter of \<open>process\<close>; \<open>m_mag_sq_buffer\<close> is declared
  and never used.
\<close>

record SPL_Meter =
  m_latest_dba_spl :: float32
  m_smoothed_dba_spl :: float32
  m_fft_input_buffer :: "float32 list"
  m_fft_output_buffer :: "float32 list"

text \<open>
  The constructor initializes the two readings; the two buffers keep whatever the
  storage holds, here the arguments.
\<close>

definition SPL_Meter_ctor :: "float32 list \<Rightarrow> float32 list \<Rightarrow> SPL_Meter" where
  "SPL_Meter_ctor input_storage output_storage =
     \<lparr>m_latest_dba_spl = 0, m_smoothed_dba_spl = 0,
      m_fft_input_buffer = input_storage, m_fft_output_buffer = output_storage\<rparr>"

definition getSmoothedDbaSpl :: "SPL_Meter \<Rightarrow> float32" where
  "getSmoothedDbaSpl m = m_smoothed_dba_spl m"

subsection \<open>The steps of \<open>SPL_Meter::process\<close>\<close>

text \<open>
  Step 1. \<open>uint32_t sum = 0; for (i = 0; i < NUM_SAMPLES; i++) sum += raw_buffer[i];\<close>
  and \<open>dynamic_dc_offset = (float)sum / NUM_SAMPLES\<close>. The addition is the one of
  \<open>uint32_t\<close>.
\<close>

definition sum_loop :: "uint32 list \<Rightarrow> uint32" where
  "sum_loop raw_buffer = foldl (\<lambda>sum i. sum + raw_buffer ! i) 0 [0..<NUM_SAMPLES]"

definition dynamic_dc_offset :: "uint32 list \<Rightarrow> float32" where
  "dynamic_dc_offset raw_buffer = real (unat (sum_loop raw_buffer)) / real NUM_SAMPLES"

text \<open>
  Step 2. The local \<open>sample\<close> of iteration \<open>i\<close>, and the buffer the loop writes to
  \<open>m_fft_input_buffer\<close>.
\<close>

definition sample :: "uint32 list \<Rightarrow> nat \<Rightarrow> float32" where
  "sample raw_buffer i = real (unat (raw_buffer ! i)) - dynamic_dc_offset raw_buffer"

definition window_loop :: "uint32 list \<Rightarrow> float32 list" where
  "window_loop raw_buffer =
     map (\<lambda>i. sample raw_buffer i * HANN_WINDOW_LUT ! i) [0..<NUM_SAMPLES]"

text \<open>
  Steps 4 to 6. The body of the loop over the bins, and the loop itself, which starts
  at bin 1 and stops before \<open>NUM_SAMPLES / 2\<close>.
\<close>

definition weighted_mag_sq :: "float32 list \<Rightarrow> nat \<Rightarrow> float32" where
  "weighted_mag_sq fft_output i =
     (let re = fft_output ! (2 * i);
          im = fft_output ! (2 * i + 1);
          mag_sq = (re * re) + (im * im)
      in mag_sq * A_WEIGHTING_LUT_SQUARED ! i * MIC_CORRECTION_LUT_SQUARED ! i)"

definition energy_loop :: "float32 list \<Rightarrow> float32" where
  "energy_loop fft_output =
     foldl (\<lambda>total_energy i. total_energy + weighted_mag_sq fft_output i) 0
       [1..<NUM_SAMPLES div 2]"

text \<open>
  Step 7. The conversion of the energy to dBA. The result carries, next to the level
  stored in \<open>m_latest_dba_spl\<close>, the argument handed to \<open>log10f\<close>: \<open>None\<close> on the path
  that does not call it.
\<close>

record conversion =
  level :: float32
  log10f_argument :: "float32 option"

definition energy_to_dba_spl :: "float32 \<Rightarrow> conversion" where
  "energy_to_dba_spl total_energy =
     (if total_energy \<le> 0 then \<lparr>level = 0, log10f_argument = None\<rparr>
      else
        let mean_sq_adc = (total_energy * 2) / real (NUM_SAMPLES * NUM_SAMPLES);
            rms_adc = sqrt mean_sq_adc;
            rms_voltage = (rms_adc / real ADC_RESOLUTION) * ADC_REF_VOLTAGE;
            sensitivity_V_Pa = 10 powr (- 38 / 20);
            pressure_Pa = rms_voltage / sensitivity_V_Pa;
            spl = 20 * log 10 (pressure_Pa / (20 / 10 ^ 6))
        in \<lparr>level = spl + CALIBRATION_OFFSET_DB,
            log10f_argument = Some (pressure_Pa / (20 / 10 ^ 6))\<rparr>)"

text \<open>Step 8. The right-hand side of the assignment to \<open>m_smoothed_dba_spl\<close>.\<close>

definition smoothing_filter :: "float32 \<Rightarrow> float32 \<Rightarrow> float32" where
  "smoothing_filter latest_dba_spl smoothed_dba_spl =
     (SMOOTHING_FACTOR * latest_dba_spl) + ((1 - SMOOTHING_FACTOR) * smoothed_dba_spl)"

subsection \<open>\<open>SPL_Meter::process\<close>\<close>

definition process ::
  "(float32 list \<Rightarrow> float32 list \<times> float32 list) \<Rightarrow> SPL_Meter \<Rightarrow> uint32 list \<Rightarrow> SPL_Meter"
where
  "process arm_rfft_fast_f32 m raw_buffer =
     (let (fft_input, fft_output) = arm_rfft_fast_f32 (window_loop raw_buffer);
          total_energy = energy_loop fft_output;
          latest = level (energy_to_dba_spl total_energy)
      in m\<lparr>m_fft_input_buffer := fft_input,
           m_fft_output_buffer := fft_output,
           m_latest_dba_spl := latest,
           m_smoothed_dba_spl := smoothing_filter latest (m_smoothed_dba_spl m)\<rparr>)"

text \<open>The total energy and the conversion of one call, as \<open>process\<close> computes them.\<close>

definition total_energy_of ::
  "(float32 list \<Rightarrow> float32 list \<times> float32 list) \<Rightarrow> uint32 list \<Rightarrow> float32"
where
  "total_energy_of arm_rfft_fast_f32 raw_buffer =
     energy_loop (snd (arm_rfft_fast_f32 (window_loop raw_buffer)))"

subsection \<open>Binary32 arithmetic\<close>

text \<open>
  Rounding to binary32: 24 significant bits, round to nearest, ties to even. A value
  \<open>x\<close> with \<open>2 ^ e \<le> \<bar>x\<bar> < 2 ^ (e + 1)\<close> lies on the grid of spacing \<open>2 ^ (e - 23)\<close>;
  below \<open>2 ^ (- 126)\<close> the spacing stays \<open>2 ^ (- 149)\<close> (subnormal numbers). The
  exponent has no upper bound here: overflow to infinity and NaN are not represented,
  and the statements keep their values in a range where binary32 is finite.
\<close>

definition round_half_even :: "real \<Rightarrow> int" where
  "round_half_even y =
     (let f = \<lfloor>y\<rfloor>; d = y - of_int f
      in if d < 1 / 2 then f else if 1 / 2 < d then f + 1 else if even f then f else f + 1)"

definition exponent32 :: "real \<Rightarrow> int" where
  "exponent32 x = (if x = 0 then - 126 else max (- 126) \<lfloor>log 2 \<bar>x\<bar>\<rfloor>)"

definition ulp32 :: "real \<Rightarrow> real" where
  "ulp32 x = 2 powi (exponent32 x - 23)"

definition round32 :: "real \<Rightarrow> real" where
  "round32 x = of_int (round_half_even (x / ulp32 x)) * ulp32 x"

subsection \<open>The steps of \<open>SPL_Meter::process\<close> in binary32 arithmetic\<close>

text \<open>
  The same lines as above, every operation rounded once (no fused multiply-add). A
  \<open>float\<close> literal and a table entry are the roundings of their decimals. The
  conversions \<open>(float)sum\<close> and \<open>(float32_t)raw_buffer[i]\<close> round the integer;
  \<open>NUM_SAMPLES\<close>, \<open>NUM_SAMPLES * NUM_SAMPLES\<close>, \<open>ADC_RESOLUTION\<close>, \<open>2.0f\<close>, \<open>20.0f\<close>,
  \<open>-38.0f\<close> and \<open>-30.0f\<close> are binary32 values as they stand.
\<close>

definition dynamic_dc_offset_f32 :: "uint32 list \<Rightarrow> real" where
  "dynamic_dc_offset_f32 raw_buffer =
     round32 (round32 (real (unat (sum_loop raw_buffer))) / real NUM_SAMPLES)"

definition sample_f32 :: "uint32 list \<Rightarrow> nat \<Rightarrow> real" where
  "sample_f32 raw_buffer i =
     round32 (round32 (real (unat (raw_buffer ! i))) - dynamic_dc_offset_f32 raw_buffer)"

definition window_loop_f32 :: "uint32 list \<Rightarrow> real list" where
  "window_loop_f32 raw_buffer =
     map (\<lambda>i. round32 (sample_f32 raw_buffer i * round32 (HANN_WINDOW_LUT ! i)))
       [0..<NUM_SAMPLES]"

definition weighted_mag_sq_f32 :: "real list \<Rightarrow> nat \<Rightarrow> real" where
  "weighted_mag_sq_f32 fft_output i =
     (let re = fft_output ! (2 * i);
          im = fft_output ! (2 * i + 1);
          mag_sq = round32 (round32 (re * re) + round32 (im * im))
      in round32 (round32 (mag_sq * round32 (A_WEIGHTING_LUT_SQUARED ! i))
                  * round32 (MIC_CORRECTION_LUT_SQUARED ! i)))"

definition energy_loop_f32 :: "real list \<Rightarrow> real" where
  "energy_loop_f32 fft_output =
     foldl (\<lambda>total_energy i. round32 (total_energy + weighted_mag_sq_f32 fft_output i)) 0
       [1..<NUM_SAMPLES div 2]"

text \<open>
  Step 7. \<open>sqrtf\<close> is the correctly rounded square root. \<open>log10f\<close> and \<open>powf\<close> belong
  to the C library and are parameters; \<open>pressure_ratio_f32\<close> is the chain from
  \<open>rms_adc\<close> to the argument of \<open>log10f\<close>, for the sensitivity that \<open>powf\<close> returns.
\<close>

definition rms_adc_f32 :: "real \<Rightarrow> real" where
  "rms_adc_f32 total_energy =
     (let mean_sq_adc = round32 (round32 (total_energy * 2) / real (NUM_SAMPLES * NUM_SAMPLES))
      in round32 (sqrt mean_sq_adc))"

definition pressure_ratio_f32 :: "real \<Rightarrow> real \<Rightarrow> real" where
  "pressure_ratio_f32 sensitivity_V_Pa rms_adc =
     (let rms_voltage = round32 (round32 (rms_adc / real ADC_RESOLUTION) * round32 ADC_REF_VOLTAGE);
          pressure_Pa = round32 (rms_voltage / sensitivity_V_Pa)
      in round32 (pressure_Pa / round32 (20 / 10 ^ 6)))"

definition log10f_argument_f32 :: "(real \<Rightarrow> real \<Rightarrow> real) \<Rightarrow> real \<Rightarrow> real" where
  "log10f_argument_f32 powf total_energy =
     pressure_ratio_f32 (powf 10 (round32 (- 38 / 20))) (rms_adc_f32 total_energy)"

definition energy_to_dba_spl_f32 ::
  "(real \<Rightarrow> real) \<Rightarrow> (real \<Rightarrow> real \<Rightarrow> real) \<Rightarrow> real \<Rightarrow> real" where
  "energy_to_dba_spl_f32 log10f powf total_energy =
     (if total_energy \<le> 0 then 0
      else
        let spl = round32 (20 * log10f (log10f_argument_f32 powf total_energy))
        in round32 (spl + CALIBRATION_OFFSET_DB))"

text \<open>Step 8, with \<open>SMOOTHING_FACTOR = 0.1f\<close>.\<close>

definition SMOOTHING_FACTOR_f32 :: real where
  "SMOOTHING_FACTOR_f32 = round32 0.1"

definition smoothing_filter_f32 :: "real \<Rightarrow> real \<Rightarrow> real" where
  "smoothing_filter_f32 latest_dba_spl smoothed_dba_spl =
     round32 (round32 (SMOOTHING_FACTOR_f32 * latest_dba_spl)
              + round32 (round32 (1 - SMOOTHING_FACTOR_f32) * smoothed_dba_spl))"

definition process_f32 ::
  "(real list \<Rightarrow> real list \<times> real list) \<Rightarrow> (real \<Rightarrow> real) \<Rightarrow> (real \<Rightarrow> real \<Rightarrow> real)
     \<Rightarrow> SPL_Meter \<Rightarrow> uint32 list \<Rightarrow> SPL_Meter"
where
  "process_f32 arm_rfft_fast_f32 log10f powf m raw_buffer =
     (let (fft_input, fft_output) = arm_rfft_fast_f32 (window_loop_f32 raw_buffer);
          total_energy = energy_loop_f32 fft_output;
          latest = energy_to_dba_spl_f32 log10f powf total_energy
      in m\<lparr>m_fft_input_buffer := fft_input,
           m_fft_output_buffer := fft_output,
           m_latest_dba_spl := latest,
           m_smoothed_dba_spl := smoothing_filter_f32 latest (m_smoothed_dba_spl m)\<rparr>)"

text \<open>
  Modelled from the spec: \<open>log10f\<close> and \<open>powf\<close> are functions of the C library, not of
  the repository; the spec uses them as the base-10 logarithm and the power function.
  \<open>log10f_rounded\<close> and \<open>powf_rounded\<close> are their correctly rounded versions, for
  statements that need concrete ones.
\<close>

definition log10f_rounded :: "real \<Rightarrow> real" where
  "log10f_rounded x = round32 (log 10 x)"

definition powf_rounded :: "real \<Rightarrow> real \<Rightarrow> real" where
  "powf_rounded x y = round32 (x powr y)"

subsection \<open>The exact transform and shifted buffers\<close>

text \<open>
  Modelled from the spec: the transform itself (\<open>arm_rfft_fast_f32\<close> of CMSIS-DSP) is
  not part of the repository. The spec describes it as a forward real-input transform
  producing N/2 complex frequency bins packed as alternating real and imaginary pairs.
  \<open>rfft_exact\<close> is the discrete Fourier transform in exact arithmetic with that
  packing: element 0 is the real bin 0, element 1 the real bin N/2, and elements
  \<open>2 k\<close> and \<open>2 k + 1\<close> the real and imaginary part of bin \<open>k\<close>. It leaves its input
  as it is. The theorems about \<open>process\<close> hold for every transform; \<open>rfft_exact\<close>
  serves where a concrete one is needed.
\<close>

definition dft_re :: "float32 list \<Rightarrow> nat \<Rightarrow> float32" where
  "dft_re x k = (\<Sum>n < length x. x ! n * cos (2 * pi * real k * real n / real (length x)))"

definition dft_im :: "float32 list \<Rightarrow> nat \<Rightarrow> float32" where
  "dft_im x k = - (\<Sum>n < length x. x ! n * sin (2 * pi * real k * real n / real (length x)))"

definition rfft_exact :: "float32 list \<Rightarrow> float32 list \<times> float32 list" where
  "rfft_exact x =
     (x, map (\<lambda>j. if j = 0 then dft_re x 0
                  else if j = 1 then dft_re x (length x div 2)
                  else if even j then dft_re x (j div 2)
                  else dft_im x (j div 2)) [0..<length x])"

text \<open>
  The buffer obtained by adding a constant to every sample, in the arithmetic of
  \<open>uint32_t\<close>.
\<close>

definition add_to_every_sample :: "uint32 \<Rightarrow> uint32 list \<Rightarrow> uint32 list" where
  "add_to_every_sample c raw_buffer = map (\<lambda>x. x + c) raw_buffer"

section \<open>Facts about the tables\<close>

lemma length_HANN_initializers: "length HANN_WINDOW_LUT_initializers = 226"
  by (simp add: HANN_WINDOW_LUT_initializers_def)

lemma length_A_WEIGHTING_initializers: "length A_WEIGHTING_LUT_SQUARED_initializers = 118"
  by (simp add: A_WEIGHTING_LUT_SQUARED_initializers_def)

lemma length_MIC_CORRECTION_initializers:
  "length MIC_CORRECTION_LUT_SQUARED_initializers = 128"
  by (simp add: MIC_CORRECTION_LUT_SQUARED_initializers_def)

lemma length_HANN_WINDOW_LUT: "length HANN_WINDOW_LUT = 256"
  by (simp add: HANN_WINDOW_LUT_def zero_filled_def length_HANN_initializers)

lemma length_A_WEIGHTING_LUT_SQUARED: "length A_WEIGHTING_LUT_SQUARED = 128"
  by (simp add: A_WEIGHTING_LUT_SQUARED_def zero_filled_def length_A_WEIGHTING_initializers)

lemma HANN_WINDOW_LUT_zero_filled:
  assumes "226 \<le> i" and "i < 256"
  shows "HANN_WINDOW_LUT ! i = 0"
  using assms
  by (simp add: HANN_WINDOW_LUT_def zero_filled_def nth_append length_HANN_initializers)

lemma list_all_replicate: "list_all P (replicate n x) \<longleftrightarrow> n = 0 \<or> P x"
  by (induction n) auto

lemma A_WEIGHTING_upper_half:
  "list_all (\<lambda>x. x = 0) (drop 64 A_WEIGHTING_LUT_SQUARED)"
  by (simp add: A_WEIGHTING_LUT_SQUARED_def zero_filled_def
      A_WEIGHTING_LUT_SQUARED_initializers_def list_all_replicate)

lemma A_WEIGHTING_LUT_SQUARED_zero:
  assumes "64 \<le> i" and "i \<le> 127"
  shows "A_WEIGHTING_LUT_SQUARED ! i = 0"
proof -
  have "i - 64 < length (drop 64 A_WEIGHTING_LUT_SQUARED)"
    using assms by (simp add: length_A_WEIGHTING_LUT_SQUARED)
  then have "drop 64 A_WEIGHTING_LUT_SQUARED ! (i - 64) = 0"
    using A_WEIGHTING_upper_half by (simp add: list_all_length)
  then show ?thesis
    using assms by (simp add: length_A_WEIGHTING_LUT_SQUARED)
qed

section \<open>The loops as sums\<close>

lemma foldl_add_upt:
  fixes g :: "nat \<Rightarrow> 'a::comm_monoid_add"
  shows "foldl (\<lambda>acc i. acc + g i) a [m..<n] = a + (\<Sum>i = m..<n. g i)"
proof (induction n)
  case 0
  show ?case by simp
next
  case (Suc n)
  show ?case
  proof (cases "m \<le> n")
    case True
    then show ?thesis using Suc by (simp add: add.assoc)
  next
    case False
    then show ?thesis by simp
  qed
qed

lemma energy_loop_sum:
  "energy_loop fft_output = (\<Sum>i = 1..127. weighted_mag_sq fft_output i)"
proof -
  have "{1..<128::nat} = {1..127}" by auto
  then show ?thesis
    by (simp add: energy_loop_def NUM_SAMPLES_def foldl_add_upt)
qed

lemma weighted_mag_sq_upper_half:
  assumes "64 \<le> i" and "i \<le> 127"
  shows "weighted_mag_sq fft_output i = 0"
  using A_WEIGHTING_LUT_SQUARED_zero [OF assms] by (simp add: weighted_mag_sq_def Let_def)

lemma energy_loop_lower_half:
  "energy_loop fft_output = (\<Sum>i = 1..63. weighted_mag_sq fft_output i)"
proof -
  have split: "{1..127::nat} = {1..63} \<union> {64..127}" by auto
  have "(\<Sum>i = 1..127. weighted_mag_sq fft_output i)
      = (\<Sum>i = 1..63. weighted_mag_sq fft_output i)
      + (\<Sum>i = 64..127. weighted_mag_sq fft_output i)"
    unfolding split by (rule sum.union_disjoint) auto
  moreover have "(\<Sum>i = 64..127. weighted_mag_sq fft_output i) = 0"
    by (rule sum.neutral) (simp add: weighted_mag_sq_upper_half)
  ultimately show ?thesis by (simp add: energy_loop_sum)
qed

lemma window_loop_nth:
  assumes "i < 256"
  shows "window_loop raw_buffer ! i = sample raw_buffer i * HANN_WINDOW_LUT ! i"
  using assms by (simp add: window_loop_def NUM_SAMPLES_def)

lemma length_window_loop: "length (window_loop raw_buffer) = 256"
  by (simp add: window_loop_def NUM_SAMPLES_def)

lemma process_latest:
  "m_latest_dba_spl (process f m raw_buffer)
     = level (energy_to_dba_spl (total_energy_of f raw_buffer))"
  by (simp add: process_def total_energy_of_def Let_def split: prod.split)

lemma process_smoothed:
  "m_smoothed_dba_spl (process f m raw_buffer)
     = smoothing_filter (m_latest_dba_spl (process f m raw_buffer)) (m_smoothed_dba_spl m)"
  by (simp add: process_def Let_def split: prod.split)

section \<open>The conversion of the energy\<close>

lemma energy_to_dba_spl_silence:
  assumes "total_energy \<le> 0"
  shows "energy_to_dba_spl total_energy = \<lparr>level = 0, log10f_argument = None\<rparr>"
  using assms by (simp add: energy_to_dba_spl_def)

lemma log10f_argument_positive:
  assumes "log10f_argument (energy_to_dba_spl total_energy) = Some x"
  shows "0 < x"
proof (cases "total_energy \<le> 0")
  case True
  with assms show ?thesis by (simp add: energy_to_dba_spl_silence)
next
  case False
  then have "0 < sqrt (total_energy * 2 / real (NUM_SAMPLES * NUM_SAMPLES))"
    by (simp add: NUM_SAMPLES_def)
  moreover have "(0::real) < 10 powr (- 38 / 20)" by simp
  ultimately have
    "0 < sqrt (total_energy * 2 / real (NUM_SAMPLES * NUM_SAMPLES)) / real ADC_RESOLUTION
          * ADC_REF_VOLTAGE / 10 powr (- 38 / 20) / (20 / 10 ^ 6)"
    by (simp add: ADC_RESOLUTION_def ADC_REF_VOLTAGE_def)
  moreover from False assms have
    "x = sqrt (total_energy * 2 / real (NUM_SAMPLES * NUM_SAMPLES)) / real ADC_RESOLUTION
          * ADC_REF_VOLTAGE / 10 powr (- 38 / 20) / (20 / 10 ^ 6)"
    by (simp add: energy_to_dba_spl_def Let_def)
  ultimately show ?thesis by simp
qed

section \<open>The offset of the samples\<close>

lemma word_sum_of_nat:
  fixes w :: "nat \<Rightarrow> uint32"
  shows "(\<Sum>i \<in> A. w i) = of_nat (\<Sum>i \<in> A. unat (w i))"
  by (simp add: of_nat_sum)

lemma sum_loop_sum:
  "sum_loop raw_buffer = of_nat (\<Sum>i < NUM_SAMPLES. unat (raw_buffer ! i))"
proof -
  have "sum_loop raw_buffer = (\<Sum>i = 0..<NUM_SAMPLES. raw_buffer ! i)"
    by (simp add: sum_loop_def foldl_add_upt)
  also have "\<dots> = of_nat (\<Sum>i = 0..<NUM_SAMPLES. unat (raw_buffer ! i))"
    by (rule word_sum_of_nat)
  finally show ?thesis by (simp add: atLeast0LessThan)
qed

lemma dynamic_dc_offset_sum:
  "dynamic_dc_offset raw_buffer
     = real ((\<Sum>i < NUM_SAMPLES. unat (raw_buffer ! i)) mod 2 ^ 32) / real NUM_SAMPLES"
proof -
  have "unat (of_nat S :: uint32) = S mod 2 ^ 32" for S
    by (simp add: unat_of_nat)
  then show ?thesis
    by (simp only: dynamic_dc_offset_def sum_loop_sum)
qed

lemma constant_buffer_sum:
  assumes "\<forall>i < NUM_SAMPLES. raw_buffer ! i = c"
  shows "(\<Sum>i < NUM_SAMPLES. unat (raw_buffer ! i)) = NUM_SAMPLES * unat c"
  using assms by simp

lemma constant_buffer_sample:
  assumes const: "\<forall>i < NUM_SAMPLES. raw_buffer ! i = c"
    and small: "unat c < 2 ^ 24"
    and i: "i < NUM_SAMPLES"
  shows "sample raw_buffer i = 0"
proof -
  from small have "NUM_SAMPLES * unat c < 2 ^ 32"
    by (simp add: NUM_SAMPLES_def)
  then have "dynamic_dc_offset raw_buffer = real (NUM_SAMPLES * unat c) / real NUM_SAMPLES"
    by (simp add: dynamic_dc_offset_sum constant_buffer_sum [OF const])
  then have "dynamic_dc_offset raw_buffer = real (unat c)"
    by (simp add: NUM_SAMPLES_def)
  with const i show ?thesis by (simp add: sample_def)
qed

lemma constant_buffer_window_loop:
  assumes "\<forall>i < NUM_SAMPLES. raw_buffer ! i = c" and "unat c < 2 ^ 24"
  shows "window_loop raw_buffer = replicate NUM_SAMPLES 0"
proof -
  have "window_loop raw_buffer = map (\<lambda>i. 0) [0..<NUM_SAMPLES]"
    unfolding window_loop_def
    by (rule map_cong) (simp_all add: constant_buffer_sample [OF assms])
  then show ?thesis by (simp add: map_replicate_trivial)
qed

lemma energy_loop_zero: "energy_loop (replicate NUM_SAMPLES 0) = 0"
proof -
  have "weighted_mag_sq (replicate NUM_SAMPLES 0) i = 0" if "i \<in> {1..127}" for i
    using that by (simp add: weighted_mag_sq_def NUM_SAMPLES_def)
  then show ?thesis by (simp add: energy_loop_sum)
qed

lemma rfft_exact_zero:
  "snd (rfft_exact (replicate NUM_SAMPLES 0)) = replicate NUM_SAMPLES 0"
proof -
  have "dft_re (replicate NUM_SAMPLES 0) k = 0" and "dft_im (replicate NUM_SAMPLES 0) k = 0"
    for k
    by (simp_all add: dft_re_def dft_im_def)
  then have "snd (rfft_exact (replicate NUM_SAMPLES 0)) = map (\<lambda>j. 0) [0..<NUM_SAMPLES]"
    by (simp add: rfft_exact_def)
  then show ?thesis by (simp add: map_replicate_trivial)
qed

lemma constant_buffer_silence:
  assumes "\<forall>i < NUM_SAMPLES. raw_buffer ! i = c" and "unat c < 2 ^ 24"
    and "snd (f (replicate NUM_SAMPLES 0)) = replicate NUM_SAMPLES 0"
  shows "total_energy_of f raw_buffer = 0"
  using assms(3)
  by (simp add: total_energy_of_def constant_buffer_window_loop [OF assms(1,2)] energy_loop_zero)

lemma wrapping_buffer_offset:
  "dynamic_dc_offset (replicate NUM_SAMPLES 0x1000000) = 0"
proof -
  have "(\<Sum>i < NUM_SAMPLES. unat (replicate NUM_SAMPLES (0x1000000 :: uint32) ! i))
      = NUM_SAMPLES * unat (0x1000000 :: uint32)"
    by (rule constant_buffer_sum) simp
  then show ?thesis by (simp add: dynamic_dc_offset_sum NUM_SAMPLES_def)
qed

lemma wrapping_buffer_sample:
  assumes "i < NUM_SAMPLES"
  shows "sample (replicate NUM_SAMPLES 0x1000000) i = 16777216"
  using assms by (simp add: sample_def wrapping_buffer_offset)

lemma sum_samples_sum_list:
  assumes "length raw_buffer = NUM_SAMPLES"
  shows "(\<Sum>i < NUM_SAMPLES. unat (raw_buffer ! i)) = sum_list (map unat raw_buffer)"
proof -
  have "sum_list (map unat raw_buffer)
      = (\<Sum>i = 0..<length (map unat raw_buffer). map unat raw_buffer ! i)"
    by (rule sum_list_sum_nth)
  also have "\<dots> = (\<Sum>i = 0..<NUM_SAMPLES. unat (raw_buffer ! i))"
    using assms by simp
  finally show ?thesis by (simp add: atLeast0LessThan)
qed

lemma shifted_buffer_sum:
  assumes len: "length raw_buffer = NUM_SAMPLES"
    and fits: "\<forall>x \<in> set raw_buffer. unat x + unat c < 2 ^ 32"
  shows "sum_list (map unat (add_to_every_sample c raw_buffer))
     = sum_list (map unat raw_buffer) + NUM_SAMPLES * unat c"
proof -
  have "unat (x + c) = unat x + unat c" if "x \<in> set raw_buffer" for x
    using fits that unat_add_lem [of x c] by simp
  then have "map unat (add_to_every_sample c raw_buffer)
      = map (\<lambda>x. unat x + unat c) raw_buffer"
    by (simp add: add_to_every_sample_def)
  then show ?thesis
    by (simp add: sum_list_addf sum_list_triv len)
qed

lemma mod_of_shifted_sum:
  fixes S k m :: nat
  assumes "(S + k) div m = S div m"
  shows "(S + k) mod m = S mod m + k"
proof -
  have "S div m * m + (S + k) mod m = S + k"
    using div_mult_mod_eq [of "S + k" m] by (simp only: assms)
  moreover have "S div m * m + (S mod m + k) = S + k"
    using div_mult_mod_eq [of S m] by simp
  ultimately have "S div m * m + (S + k) mod m = S div m * m + (S mod m + k)"
    by simp
  then show ?thesis by (simp only: add_left_cancel)
qed

lemma shifted_buffer_offset:
  assumes len: "length raw_buffer = NUM_SAMPLES"
    and fits: "\<forall>x \<in> set raw_buffer. unat x + unat c < 2 ^ 32"
    and wraps: "(sum_list (map unat raw_buffer) + NUM_SAMPLES * unat c) div 2 ^ 32
                  = sum_list (map unat raw_buffer) div 2 ^ 32"
  shows "dynamic_dc_offset (add_to_every_sample c raw_buffer)
     = dynamic_dc_offset raw_buffer + real (unat c)"
proof -
  have len': "length (add_to_every_sample c raw_buffer) = NUM_SAMPLES"
    using len by (simp add: add_to_every_sample_def)
  have "dynamic_dc_offset (add_to_every_sample c raw_buffer)
      = real ((sum_list (map unat raw_buffer) + NUM_SAMPLES * unat c) mod 2 ^ 32)
          / real NUM_SAMPLES"
    by (simp only: dynamic_dc_offset_sum sum_samples_sum_list [OF len']
        shifted_buffer_sum [OF len fits])
  also have "\<dots> = real (sum_list (map unat raw_buffer) mod 2 ^ 32 + NUM_SAMPLES * unat c)
          / real NUM_SAMPLES"
    by (simp only: mod_of_shifted_sum [OF wraps])
  also have "\<dots> = real (sum_list (map unat raw_buffer) mod 2 ^ 32) / real NUM_SAMPLES
          + real (unat c)"
    by (simp add: NUM_SAMPLES_def add_divide_distrib)
  finally show ?thesis
    by (simp only: dynamic_dc_offset_sum sum_samples_sum_list [OF len])
qed

lemma shifted_buffer_window_loop:
  assumes len: "length raw_buffer = NUM_SAMPLES"
    and fits: "\<forall>x \<in> set raw_buffer. unat x + unat c < 2 ^ 32"
    and wraps: "(sum_list (map unat raw_buffer) + NUM_SAMPLES * unat c) div 2 ^ 32
                  = sum_list (map unat raw_buffer) div 2 ^ 32"
  shows "window_loop (add_to_every_sample c raw_buffer) = window_loop raw_buffer"
proof -
  have "sample (add_to_every_sample c raw_buffer) i = sample raw_buffer i"
    if "i < NUM_SAMPLES" for i
  proof -
    from that len have "raw_buffer ! i \<in> set raw_buffer" by simp
    with fits have "unat (raw_buffer ! i + c) = unat (raw_buffer ! i) + unat c"
      using unat_add_lem [of "raw_buffer ! i" c] by simp
    moreover from that len have "add_to_every_sample c raw_buffer ! i = raw_buffer ! i + c"
      by (simp add: add_to_every_sample_def)
    ultimately show ?thesis
      by (simp add: sample_def shifted_buffer_offset [OF assms])
  qed
  then show ?thesis
    unfolding window_loop_def by (intro map_cong) simp_all
qed

section \<open>The exact transform of the window\<close>

text \<open>
  Bin 32 of a 256-point transform has the twiddle factors \<open>cos (n \<pi> / 4)\<close>, which take
  the values 0, \<open>\<plusminus>1\<close> and \<open>\<plusminus>sqrt 2 / 2\<close> with period 8. This gives the real part of
  bin 32 of the window table in closed form, and from it a lower bound on the energy of
  the buffer whose samples all equal \<open>2 ^ 24\<close>.
\<close>

lemma cos_shift: "cos (x + real k * (2 * pi)) = cos x"
proof (induction k)
  case 0
  show ?case by simp
next
  case (Suc k)
  have "x + real (Suc k) * (2 * pi) = (x + real k * (2 * pi)) + 2 * pi"
    by (simp add: algebra_simps)
  then show ?case by (simp only: cos_periodic Suc.IH)
qed

lemma nth_concat_replicate:
  assumes "pat \<noteq> []" and "n < m * length pat"
  shows "concat (replicate m pat) ! n = pat ! (n mod length pat)"
  using assms
proof (induction m arbitrary: n)
  case 0
  then show ?case by simp
next
  case (Suc m)
  show ?case
  proof (cases "n < length pat")
    case True
    then show ?thesis by (simp add: nth_append)
  next
    case False
    then have "n - length pat < m * length pat" using Suc.prems by simp
    with Suc.IH [OF Suc.prems(1)] have
      "concat (replicate m pat) ! (n - length pat) = pat ! ((n - length pat) mod length pat)"
      by simp
    moreover from False have "(n - length pat) mod length pat = n mod length pat"
      by (simp add: le_mod_geq)
    ultimately show ?thesis using False by (simp add: nth_append)
  qed
qed

lemma sum_nth_mult:
  fixes xs ys :: "real list"
  assumes "length xs = length ys"
  shows "(\<Sum>n < length xs. xs ! n * ys ! n) = sum_list (map2 (*) xs ys)"
proof -
  have "sum_list (map2 (*) xs ys)
      = (\<Sum>n = 0..<length (map2 (*) xs ys). map2 (*) xs ys ! n)"
    by (rule sum_list_sum_nth)
  also have "\<dots> = (\<Sum>n = 0..<length xs. xs ! n * ys ! n)"
    using assms by simp
  finally show ?thesis by (simp add: atLeast0LessThan)
qed
lemma cos_quarter_turns:
  "cos (real n * (pi / 4))
     = [1, 0, 0, 0, - 1, 0, 0, 0] ! (n mod 8)
       + [0, 1, 0, - 1, 0, - 1, 0, 1] ! (n mod 8) * (sqrt 2 / 2)"
proof -
  have "n = n mod 8 + n div 8 * 8" by simp
  then have "real n = real (n mod 8 + n div 8 * 8)" by (rule arg_cong)
  then have "real n = real (n mod 8) + real (n div 8) * 8"
    by (simp only: of_nat_add of_nat_mult of_nat_numeral)
  then have "real n * (pi / 4) = real (n mod 8) * (pi / 4) + real (n div 8) * (2 * pi)"
    by (simp add: algebra_simps)
  then have red: "cos (real n * (pi / 4)) = cos (real (n mod 8) * (pi / 4))"
    by (simp only: cos_shift)
  have "n mod 8 < 8" by simp
  then consider "n mod 8 = 0" | "n mod 8 = 1" | "n mod 8 = 2" | "n mod 8 = 3"
    | "n mod 8 = 4" | "n mod 8 = 5" | "n mod 8 = 6" | "n mod 8 = 7"
    by linarith
  then show ?thesis
  proof cases
    case 1
    then show ?thesis unfolding red by simp
  next
    case 2
    then show ?thesis unfolding red by (simp add: cos_45)
  next
    case 3
    then show ?thesis unfolding red by simp
  next
    case 4
    have "3 * (pi / 4) = pi - pi / 4" by simp
    then have "cos (3 * (pi / 4)) = - (sqrt 2 / 2)"
      by (simp only: cos_pi_minus cos_45)
    with 4 show ?thesis unfolding red by simp
  next
    case 5
    then show ?thesis unfolding red by simp
  next
    case 6
    have "5 * (pi / 4) = pi / 4 + pi" by simp
    then have "cos (5 * (pi / 4)) = - (sqrt 2 / 2)"
      by (simp only: cos_periodic_pi cos_45)
    with 6 show ?thesis unfolding red by simp
  next
    case 7
    have "6 * (pi / 4) = 3 / 2 * pi" by simp
    then have "cos (6 * (pi / 4)) = 0"
      by (simp only: cos_3over2_pi)
    with 7 show ?thesis unfolding red by simp
  next
    case 8
    have "7 * (pi / 4) = 2 * pi - pi / 4" by simp
    then have "cos (7 * (pi / 4)) = sqrt 2 / 2"
      by (simp only: cos_2pi_minus cos_45)
    with 8 show ?thesis unfolding red by simp
  qed
qed

lemma window_pattern_sum:
  assumes "length pat = 8"
  shows "(\<Sum>n < 256. HANN_WINDOW_LUT ! n * pat ! (n mod 8))
     = sum_list (map2 (*) HANN_WINDOW_LUT (concat (replicate 32 pat)))"
proof -
  from assms have ne: "pat \<noteq> []" by auto
  have len: "length (concat (replicate 32 pat)) = 256"
    using assms by (simp add: length_concat sum_list_replicate)
  have "(\<Sum>n < 256. HANN_WINDOW_LUT ! n * pat ! (n mod 8))
      = (\<Sum>n < 256. HANN_WINDOW_LUT ! n * concat (replicate 32 pat) ! n)"
    by (rule sum.cong) (simp_all add: nth_concat_replicate [OF ne] assms)
  also have "\<dots> = sum_list (map2 (*) HANN_WINDOW_LUT (concat (replicate 32 pat)))"
    using sum_nth_mult [of HANN_WINDOW_LUT "concat (replicate 32 pat)"]
    by (simp add: len length_HANN_WINDOW_LUT)
  finally show ?thesis .
qed

lemma window_sum_cos:
  "(\<Sum>n < 256. HANN_WINDOW_LUT ! n * [1, 0, 0, 0, - 1, 0, 0, 0] ! (n mod 8)) = 777 / 100000"
proof -
  have "sum_list (map2 (*) HANN_WINDOW_LUT (concat (replicate 32 [1, 0, 0, 0, - 1, 0, 0, 0])))
      = 777 / 100000"
    by (simp add: HANN_WINDOW_LUT_def zero_filled_def HANN_WINDOW_LUT_initializers_def
        numeral_eq_Suc)
  then show ?thesis by (simp only: window_pattern_sum list.size)
qed

lemma window_sum_diag:
  "(\<Sum>n < 256. HANN_WINDOW_LUT ! n * [0, 1, 0, - 1, 0, - 1, 0, 1] ! (n mod 8)) = 597 / 50000"
proof -
  have "sum_list (map2 (*) HANN_WINDOW_LUT (concat (replicate 32 [0, 1, 0, - 1, 0, - 1, 0, 1])))
      = 597 / 50000"
    by (simp add: HANN_WINDOW_LUT_def zero_filled_def HANN_WINDOW_LUT_initializers_def
        numeral_eq_Suc)
  then show ?thesis by (simp only: window_pattern_sum list.size)
qed

lemma wrapping_buffer_window_loop:
  "window_loop (replicate NUM_SAMPLES 0x1000000)
     = map (\<lambda>i. 16777216 * HANN_WINDOW_LUT ! i) [0..<NUM_SAMPLES]"
  unfolding window_loop_def
  by (rule map_cong) (simp_all add: wrapping_buffer_sample)

lemma wrapping_buffer_bin_32:
  "dft_re (window_loop (replicate NUM_SAMPLES 0x1000000)) 32
     = 16777216 * (777 / 100000 + 597 / 50000 * (sqrt 2 / 2))"
proof -
  have "dft_re (window_loop (replicate NUM_SAMPLES 0x1000000)) 32
      = (\<Sum>n < 256. 16777216 * HANN_WINDOW_LUT ! n * cos (2 * pi * real 32 * real n / real 256))"
    unfolding dft_re_def wrapping_buffer_window_loop
    by (simp add: NUM_SAMPLES_def)
  also have "\<dots> = (\<Sum>n < 256. 16777216 * (HANN_WINDOW_LUT ! n * cos (real n * (pi / 4))))"
    by (rule sum.cong) (simp_all add: field_simps)
  also have "\<dots> = 16777216 * (\<Sum>n < 256. HANN_WINDOW_LUT ! n * cos (real n * (pi / 4)))"
    by (simp only: sum_distrib_left)
  also have "(\<Sum>n < 256. HANN_WINDOW_LUT ! n * cos (real n * (pi / 4)))
      = (\<Sum>n < 256. HANN_WINDOW_LUT ! n * [1, 0, 0, 0, - 1, 0, 0, 0] ! (n mod 8))
        + (\<Sum>n < 256. HANN_WINDOW_LUT ! n * [0, 1, 0, - 1, 0, - 1, 0, 1] ! (n mod 8))
          * (sqrt 2 / 2)"
    by (simp only: cos_quarter_turns distrib_left sum.distrib sum_distrib_right mult.assoc)
  finally show ?thesis
    by (simp only: window_sum_cos window_sum_diag)
qed

lemma rfft_exact_bin_32:
  assumes "length x = 256"
  shows "snd (rfft_exact x) ! 64 = dft_re x 32"
  using assms by (simp add: rfft_exact_def)

lemma A_WEIGHTING_nonneg:
  assumes "i < 128"
  shows "0 \<le> A_WEIGHTING_LUT_SQUARED ! i"
proof -
  have "list_all (\<lambda>x. 0 \<le> x) A_WEIGHTING_LUT_SQUARED"
    by (simp add: A_WEIGHTING_LUT_SQUARED_def zero_filled_def
        A_WEIGHTING_LUT_SQUARED_initializers_def list_all_replicate)
  with assms show ?thesis
    by (simp add: list_all_length length_A_WEIGHTING_LUT_SQUARED)
qed

lemma MIC_CORRECTION_nonneg:
  assumes "i < 128"
  shows "0 \<le> MIC_CORRECTION_LUT_SQUARED ! i"
proof -
  have "list_all (\<lambda>x. 0 \<le> x) MIC_CORRECTION_LUT_SQUARED"
    by (simp add: MIC_CORRECTION_LUT_SQUARED_def zero_filled_def
        MIC_CORRECTION_LUT_SQUARED_initializers_def)
  moreover have "length MIC_CORRECTION_LUT_SQUARED = 128"
    by (simp add: MIC_CORRECTION_LUT_SQUARED_def zero_filled_def
        length_MIC_CORRECTION_initializers)
  ultimately show ?thesis using assms
    by (simp add: list_all_length)
qed

lemma weighted_mag_sq_nonneg:
  assumes "i < 128"
  shows "0 \<le> weighted_mag_sq fft_output i"
  using A_WEIGHTING_nonneg [OF assms] MIC_CORRECTION_nonneg [OF assms]
  by (simp add: weighted_mag_sq_def Let_def)

lemma energy_loop_ge_bin_32:
  "(fft_output ! 64)\<^sup>2 * (631 / 10000) * (9226 / 10000) \<le> energy_loop fft_output"
proof -
  have "weighted_mag_sq fft_output 32 \<le> (\<Sum>i = 1..127. weighted_mag_sq fft_output i)"
    by (rule member_le_sum) (simp_all add: weighted_mag_sq_nonneg)
  moreover have coeff: "A_WEIGHTING_LUT_SQUARED ! 32 = 631 / 10000"
    "MIC_CORRECTION_LUT_SQUARED ! 32 = 9226 / 10000"
    by (simp_all add: A_WEIGHTING_LUT_SQUARED_def MIC_CORRECTION_LUT_SQUARED_def zero_filled_def
        A_WEIGHTING_LUT_SQUARED_initializers_def MIC_CORRECTION_LUT_SQUARED_initializers_def
        nth_append)
  have "weighted_mag_sq fft_output 32
      = ((fft_output ! 64)\<^sup>2 + (fft_output ! 65)\<^sup>2) * (631 / 10000) * (9226 / 10000)"
    unfolding weighted_mag_sq_def Let_def coeff by (simp add: power2_eq_square)
  moreover have "(fft_output ! 64)\<^sup>2 * (631 / 10000) * (9226 / 10000)
      \<le> ((fft_output ! 64)\<^sup>2 + (fft_output ! 65)\<^sup>2) * (631 / 10000) * (9226 / 10000)"
    by (intro mult_right_mono) simp_all
  ultimately show ?thesis by (simp only: energy_loop_sum)
qed

lemma wrapping_buffer_energy:
  "327680000 \<le> total_energy_of rfft_exact (replicate NUM_SAMPLES 0x1000000)"
proof -
  let ?x = "window_loop (replicate NUM_SAMPLES 0x1000000)"
  have "(0::real) \<le> 597 / 50000 * (sqrt 2 / 2)" by simp
  then have "(16777216 :: real) * (777 / 100000)
      \<le> 16777216 * (777 / 100000 + 597 / 50000 * (sqrt 2 / 2))"
    by simp
  then have "(16777216 :: real) * (777 / 100000) \<le> snd (rfft_exact ?x) ! 64"
    by (simp only: rfft_exact_bin_32 [OF length_window_loop] wrapping_buffer_bin_32)
  then have "(130000 :: real) \<le> snd (rfft_exact ?x) ! 64" by simp
  then have "(130000 :: real)\<^sup>2 \<le> (snd (rfft_exact ?x) ! 64)\<^sup>2"
    by (rule power_mono) simp
  then have "(327680000 :: real) \<le> (snd (rfft_exact ?x) ! 64)\<^sup>2 * (631 / 10000) * (9226 / 10000)"
    by simp
  also have "\<dots> \<le> energy_loop (snd (rfft_exact ?x))"
    by (rule energy_loop_ge_bin_32)
  finally show ?thesis by (simp only: total_energy_of_def)
qed

lemma level_of_large_energy:
  assumes "327680000 \<le> total_energy"
  shows "30 \<le> level (energy_to_dba_spl total_energy)"
proof -
  have "(100::real)\<^sup>2 \<le> total_energy * 2 / real (NUM_SAMPLES * NUM_SAMPLES)"
    using assms by (simp add: NUM_SAMPLES_def)
  then have root: "100 \<le> sqrt (total_energy * 2 / real (NUM_SAMPLES * NUM_SAMPLES))"
    by (rule real_le_rsqrt)
  have "(10::real) powr (- 38 / 20) \<le> 10 powr 0"
    by (rule powr_mono) simp_all
  then have sens: "(0::real) < 10 powr (- 38 / 20)" "(10::real) powr (- 38 / 20) \<le> 1"
    by simp_all
  define v where "v = sqrt (total_energy * 2 / real (NUM_SAMPLES * NUM_SAMPLES))
      / real ADC_RESOLUTION * ADC_REF_VOLTAGE"
  have v: "2 / 100 \<le> v"
    using root unfolding v_def by (simp add: ADC_RESOLUTION_def ADC_REF_VOLTAGE_def)
  define p where "p = v / 10 powr (- 38 / 20)"
  from v have "0 \<le> v" by simp
  then have "v * 10 powr (- 38 / 20) \<le> v * 1"
    using sens(2) by (rule mult_left_mono [rotated])
  then have "v \<le> p"
    using sens(1) unfolding p_def by (simp add: pos_le_divide_eq)
  with v have p: "2 / 100 \<le> p" by (rule order_trans)
  then have big: "(10::real) ^ 3 \<le> p / (20 / 10 ^ 6)" by simp
  then have "log 10 (10 ^ 3) \<le> log 10 (p / (20 / 10 ^ 6))"
    by (subst log_le_cancel_iff) simp_all
  moreover have "log 10 ((10::real) ^ 3) = 3"
    by (subst log_nat_power) simp_all
  ultimately have "3 \<le> log 10 (p / (20 / 10 ^ 6))"
    by (simp only:)
  then have "30 \<le> 20 * log 10 (p / (20 / 10 ^ 6)) + CALIBRATION_OFFSET_DB"
    by (simp add: CALIBRATION_OFFSET_DB_def)
  moreover from assms have "\<not> total_energy \<le> 0" by simp
  then have "level (energy_to_dba_spl total_energy)
      = 20 * log 10 (p / (20 / 10 ^ 6)) + CALIBRATION_OFFSET_DB"
    unfolding p_def v_def by (simp add: energy_to_dba_spl_def Let_def)
  ultimately show ?thesis by simp
qed

lemma shifted_zero_buffer:
  "add_to_every_sample 0x1000000 (replicate 256 0) = replicate NUM_SAMPLES 0x1000000"
  by (simp add: add_to_every_sample_def NUM_SAMPLES_def)

section \<open>Rounding to binary32\<close>

lemma round_half_even_of_int: "round_half_even (of_int n) = n"
  by (simp add: round_half_even_def)

lemma round_half_even_cases:
  "round_half_even y = \<lfloor>y\<rfloor> \<or> round_half_even y = \<lfloor>y\<rfloor> + 1"
  by (simp add: round_half_even_def Let_def)

lemma round_half_even_mono:
  assumes "x \<le> y"
  shows "round_half_even x \<le> round_half_even y"
proof (cases "\<lfloor>x\<rfloor> = \<lfloor>y\<rfloor>")
  case True
  with assms have "x - of_int \<lfloor>x\<rfloor> \<le> y - of_int \<lfloor>y\<rfloor>" by simp
  with True show ?thesis
    by (auto simp: round_half_even_def Let_def)
next
  case False
  with assms have "\<lfloor>x\<rfloor> < \<lfloor>y\<rfloor>" by (simp add: floor_mono order.strict_iff_order)
  moreover have "round_half_even x \<le> \<lfloor>x\<rfloor> + 1"
    using round_half_even_cases [of x] by auto
  moreover have "\<lfloor>y\<rfloor> \<le> round_half_even y"
    using round_half_even_cases [of y] by auto
  ultimately show ?thesis by simp
qed



lemma floor_log2_bounds:
  assumes "x \<noteq> 0"
  shows "2 powi \<lfloor>log 2 \<bar>x\<bar>\<rfloor> \<le> \<bar>x\<bar>" and "\<bar>x\<bar> < 2 powi (\<lfloor>log 2 \<bar>x\<bar>\<rfloor> + 1)"
proof -
  from assms have pos: "0 < \<bar>x\<bar>" by simp
  define k where "k = \<lfloor>log 2 \<bar>x\<bar>\<rfloor>"
  have p: "(2::real) powr real_of_int k = 2 powi k"
    "(2::real) powr real_of_int (k + 1) = 2 powi (k + 1)"
    by (rule powr_real_of_int'; simp)+
  have "\<lfloor>log 2 \<bar>x\<bar>\<rfloor> = k" by (simp add: k_def)
  then have "2 powr real_of_int k \<le> \<bar>x\<bar> \<and> \<bar>x\<bar> < 2 powr real_of_int (k + 1)"
    by (subst (asm) floor_log_eq_powr_iff [OF pos]) simp_all
  then have "2 powi k \<le> \<bar>x\<bar> \<and> \<bar>x\<bar> < 2 powi (k + 1)"
    by (simp only: p)
  then show "2 powi \<lfloor>log 2 \<bar>x\<bar>\<rfloor> \<le> \<bar>x\<bar>" and "\<bar>x\<bar> < 2 powi (\<lfloor>log 2 \<bar>x\<bar>\<rfloor> + 1)"
    unfolding k_def by simp_all
qed

lemma exponent32_ge: "- 126 \<le> exponent32 x"
  by (simp add: exponent32_def)

lemma exponent32_upper: "\<bar>x\<bar> < 2 powi (exponent32 x + 1)"
proof (cases "x = 0")
  case True
  then show ?thesis by simp
next
  case False
  have "(2::real) powi (\<lfloor>log 2 \<bar>x\<bar>\<rfloor> + 1) \<le> 2 powi (exponent32 x + 1)"
    using False by (intro power_int_increasing) (simp_all add: exponent32_def)
  with floor_log2_bounds(2) [OF False] show ?thesis by simp
qed

lemma exponent32_lower:
  assumes "- 126 < exponent32 x"
  shows "2 powi exponent32 x \<le> \<bar>x\<bar>"
proof -
  from assms have nz: "x \<noteq> 0" by (auto simp: exponent32_def)
  with assms have "exponent32 x = \<lfloor>log 2 \<bar>x\<bar>\<rfloor>"
    by (simp add: exponent32_def max_def split: if_splits)
  with floor_log2_bounds(1) [OF nz] show ?thesis by simp
qed

lemma exponent32_mono:
  assumes "\<bar>x\<bar> \<le> \<bar>y\<bar>"
  shows "exponent32 x \<le> exponent32 y"
proof (rule ccontr)
  assume "\<not> exponent32 x \<le> exponent32 y"
  then have less: "exponent32 y + 1 \<le> exponent32 x" by simp
  with exponent32_ge [of y] have "- 126 < exponent32 x" by simp
  then have "2 powi exponent32 x \<le> \<bar>x\<bar>" by (rule exponent32_lower)
  also note assms
  also note exponent32_upper [of y]
  also have "(2::real) powi (exponent32 y + 1) \<le> 2 powi exponent32 x"
    using less by (intro power_int_increasing) simp_all
  finally show False by simp
qed


lemma exponent32_subnormal:
  assumes "\<bar>x\<bar> < 2 powi (- 125)"
  shows "exponent32 x = - 126"
proof (rule ccontr)
  assume "exponent32 x \<noteq> - 126"
  with exponent32_ge [of x] have big: "- 125 \<le> exponent32 x" by simp
  then have "- 126 < exponent32 x" by simp
  then have "2 powi exponent32 x \<le> \<bar>x\<bar>" by (rule exponent32_lower)
  moreover have "(2::real) powi (- 125) \<le> 2 powi exponent32 x"
    using big by (intro power_int_increasing) simp_all
  ultimately show False using assms by simp
qed

lemma ulp32_pos: "0 < ulp32 x"
  by (simp add: ulp32_def zero_less_power_int)




lemma round32_exact:
  assumes "exponent32 x = e" and "x / 2 powi (e - 23) = of_int n"
  shows "round32 x = x"
proof -
  have "round32 x = of_int n * 2 powi (e - 23)"
    using assms by (simp add: round32_def ulp32_def round_half_even_of_int)
  also have "\<dots> = x"
    using assms(2) zero_less_power_int [of "2::real" "e - 23"]
    by (simp add: field_simps)
  finally show ?thesis .
qed

lemma round32_ge_multiple:
  assumes "of_int m * ulp32 x \<le> x"
  shows "of_int m * ulp32 x \<le> round32 x"
proof -
  from assms have "of_int m \<le> x / ulp32 x"
    using ulp32_pos [of x] by (simp add: pos_le_divide_eq)
  then have "round_half_even (of_int m) \<le> round_half_even (x / ulp32 x)"
    by (rule round_half_even_mono)
  then have "m \<le> round_half_even (x / ulp32 x)"
    by (simp only: round_half_even_of_int)
  then have "(of_int m :: real) \<le> of_int (round_half_even (x / ulp32 x))" by simp
  then show ?thesis
    unfolding round32_def using ulp32_pos [of x] by (intro mult_right_mono) simp_all
qed

lemma round32_le_multiple:
  assumes "x \<le> of_int m * ulp32 x"
  shows "round32 x \<le> of_int m * ulp32 x"
proof -
  from assms have "x / ulp32 x \<le> of_int m"
    using ulp32_pos [of x] by (simp add: pos_divide_le_eq)
  then have "round_half_even (x / ulp32 x) \<le> round_half_even (of_int m)"
    by (rule round_half_even_mono)
  then have "round_half_even (x / ulp32 x) \<le> m"
    by (simp only: round_half_even_of_int)
  then have "(of_int (round_half_even (x / ulp32 x)) :: real) \<le> of_int m" by simp
  then show ?thesis
    unfolding round32_def using ulp32_pos [of x] by (intro mult_right_mono) simp_all
qed

lemma binade_bottom: "of_int (2 ^ 23) * ulp32 x = 2 powi exponent32 x"
proof -
  have "(2::real) powi (23 + (exponent32 x - 23)) = 2 powi 23 * 2 powi (exponent32 x - 23)"
    by (rule power_int_add) simp
  then show ?thesis by (simp add: ulp32_def)
qed

lemma binade_top: "of_int (2 ^ 24) * ulp32 x = 2 powi (exponent32 x + 1)"
proof -
  have "(2::real) powi (24 + (exponent32 x - 23)) = 2 powi 24 * 2 powi (exponent32 x - 23)"
    by (rule power_int_add) simp
  moreover have "24 + (exponent32 x - 23) = exponent32 x + 1" by simp
  ultimately show ?thesis by (simp add: ulp32_def)
qed

lemma round32_nonneg:
  assumes "0 \<le> x"
  shows "0 \<le> round32 x"
  using round32_ge_multiple [of 0 x] assms by simp

lemma round32_nonpos:
  assumes "x \<le> 0"
  shows "round32 x \<le> 0"
  using round32_le_multiple [of x 0] assms by simp

lemma round32_le_top:
  assumes "0 \<le> x"
  shows "round32 x \<le> 2 powi (exponent32 x + 1)"
proof -
  from assms exponent32_upper [of x] have "x \<le> 2 powi (exponent32 x + 1)" by simp
  then show ?thesis
    using round32_le_multiple [of x "2 ^ 24"] by (simp only: binade_top)
qed

lemma round32_ge_bottom:
  assumes "0 \<le> x" and "- 126 < exponent32 x"
  shows "2 powi exponent32 x \<le> round32 x"
proof -
  from assms exponent32_lower [of x] have "2 powi exponent32 x \<le> x" by simp
  then show ?thesis
    using round32_ge_multiple [of "2 ^ 23" x] by (simp only: binade_bottom)
qed

lemma round32_ge_neg_top:
  assumes "x \<le> 0"
  shows "- (2 powi (exponent32 x + 1)) \<le> round32 x"
proof -
  from assms exponent32_upper [of x] have "- (2 powi (exponent32 x + 1)) \<le> x" by simp
  then have "of_int (- (2 ^ 24)) * ulp32 x \<le> x"
    using binade_top [of x] by simp
  then have "of_int (- (2 ^ 24)) * ulp32 x \<le> round32 x"
    by (rule round32_ge_multiple)
  then show ?thesis using binade_top [of x] by simp
qed

lemma round32_le_neg_bottom:
  assumes "x \<le> 0" and "- 126 < exponent32 x"
  shows "round32 x \<le> - (2 powi exponent32 x)"
proof -
  from assms exponent32_lower [of x] have "x \<le> - (2 powi exponent32 x)" by simp
  then have "x \<le> of_int (- (2 ^ 23)) * ulp32 x"
    using binade_bottom [of x] by simp
  then have "round32 x \<le> of_int (- (2 ^ 23)) * ulp32 x"
    by (rule round32_le_multiple)
  then show ?thesis using binade_bottom [of x] by simp
qed

lemma round32_mono:
  assumes "x \<le> y"
  shows "round32 x \<le> round32 y"
proof (cases "exponent32 x = exponent32 y")
  case True
  then have u: "ulp32 x = ulp32 y" by (simp add: ulp32_def)
  from assms have "x / ulp32 y \<le> y / ulp32 y"
    using ulp32_pos [of y] by (simp add: divide_right_mono)
  then have "round_half_even (x / ulp32 y) \<le> round_half_even (y / ulp32 y)"
    by (rule round_half_even_mono)
  then have "(of_int (round_half_even (x / ulp32 y)) :: real)
      \<le> of_int (round_half_even (y / ulp32 y))" by simp
  then show ?thesis
    unfolding round32_def u using ulp32_pos [of y] by (intro mult_right_mono) simp_all
next
  case False
  consider "0 \<le> x" | "y \<le> 0" | "x < 0" "0 < y" by linarith
  then show ?thesis
  proof cases
    case 1
    with assms have y: "0 \<le> y" and "\<bar>x\<bar> \<le> \<bar>y\<bar>" by simp_all
    then have "exponent32 x \<le> exponent32 y" by (simp add: exponent32_mono)
    with False have less: "exponent32 x + 1 \<le> exponent32 y" by simp
    with exponent32_ge [of x] have "- 126 < exponent32 y" by simp
    have "round32 x \<le> 2 powi (exponent32 x + 1)" using 1 by (rule round32_le_top)
    also have "\<dots> \<le> 2 powi exponent32 y"
      using less by (intro power_int_increasing) simp_all
    also have "\<dots> \<le> round32 y"
      using y \<open>- 126 < exponent32 y\<close> by (rule round32_ge_bottom)
    finally show ?thesis .
  next
    case 2
    with assms have x: "x \<le> 0" and "\<bar>y\<bar> \<le> \<bar>x\<bar>" by simp_all
    then have "exponent32 y \<le> exponent32 x" by (simp add: exponent32_mono)
    with False have less: "exponent32 y + 1 \<le> exponent32 x" by simp
    with exponent32_ge [of y] have big: "- 126 < exponent32 x" by simp
    have "round32 x \<le> - (2 powi exponent32 x)" using x big by (rule round32_le_neg_bottom)
    also have "\<dots> \<le> - (2 powi (exponent32 y + 1))"
      using less by (simp add: power_int_increasing)
    also have "\<dots> \<le> round32 y" using 2 by (rule round32_ge_neg_top)
    finally show ?thesis .
  next
    case 3
    then have "round32 x \<le> 0" and "0 \<le> round32 y"
      by (simp_all add: round32_nonpos round32_nonneg)
    then show ?thesis by simp
  qed
qed

lemma round32_representable:
  assumes m: "\<bar>m\<bar> < 2 ^ 24" and k: "- 149 \<le> k"
  shows "round32 (of_int m * 2 powi k) = of_int m * 2 powi k"
proof -
  define x :: real where "x = of_int m * 2 powi k"
  define e where "e = exponent32 x"
  have two_k: "(0::real) < 2 powi k" by (simp add: zero_less_power_int)
  have le: "e - 23 \<le> k"
  proof (cases "- 126 < e")
    case True
    then have "2 powi e \<le> \<bar>x\<bar>" unfolding e_def by (rule exponent32_lower)
    also have "\<bar>x\<bar> = \<bar>of_int m\<bar> * 2 powi k"
      using two_k by (simp add: x_def abs_mult)
    also have "\<dots> < 2 ^ 24 * 2 powi k"
    proof -
      from m have "\<bar>of_int m :: real\<bar> < 2 ^ 24"
        by (metis of_int_abs of_int_less_iff of_int_numeral of_int_power)
      then show ?thesis using two_k by (simp add: mult_strict_right_mono)
    qed
    also have "\<dots> = 2 powi (24 + k)"
    proof -
      have "(2::real) powi (24 + k) = 2 powi 24 * 2 powi k" by (rule power_int_add) simp
      then show ?thesis by simp
    qed
    finally have "(2::real) powi e < 2 powi (24 + k)" .
    then have "e < 24 + k"
      by (metis less_le_not_le not_le one_le_numeral power_int_increasing)
    then show ?thesis by simp
  next
    case False
    with exponent32_ge [of x] have "e = - 126" by (simp add: e_def)
    with k show ?thesis by simp
  qed
  define d where "d = nat (k - (e - 23))"
  from le have d: "k = (e - 23) + int d" by (simp add: d_def)
  have "(2::real) powi k = 2 powi (e - 23) * 2 powi int d"
    unfolding d by (rule power_int_add) simp
  then have "x / 2 powi (e - 23) = of_int m * 2 ^ d"
    using zero_less_power_int [of "2::real" "e - 23"] by (simp add: x_def)
  then have "x / 2 powi (e - 23) = of_int (m * 2 ^ d)" by simp
  with e_def [symmetric] have "round32 x = x" by (rule round32_exact)
  then show ?thesis by (simp only: x_def)
qed


section \<open>Values of the rounding\<close>



lemma round32_power_of_two:
  assumes "- 149 \<le> k"
  shows "round32 (2 powi k) = 2 powi k"
  using round32_representable [of 1 k] assms by simp


lemma round32_le_power_of_two:
  assumes "x \<le> 2 powi k" and "- 149 \<le> k"
  shows "round32 x \<le> 2 powi k"
  using round32_mono [OF assms(1)] round32_power_of_two [OF assms(2)] by simp




lemma round32_nat:
  assumes "n < 2 ^ 24"
  shows "round32 (real n) = real n"
proof -
  from assms have "\<bar>int n\<bar> < 2 ^ 24" by simp
  then have "round32 (of_int (int n) * 2 powi 0) = of_int (int n) * 2 powi 0"
    by (rule round32_representable) simp
  then show ?thesis by simp
qed

lemma round32_nat_div_256:
  assumes "n < 2 ^ 24"
  shows "round32 (real n / 256) = real n / 256"
proof -
  from assms have "\<bar>int n\<bar> < 2 ^ 24" by simp
  then have "round32 (of_int (int n) * 2 powi (- 8)) = of_int (int n) * 2 powi (- 8)"
    by (rule round32_representable) simp
  then show ?thesis by (simp add: power_int_minus)
qed

section \<open>The smoothing filter in binary32\<close>








section \<open>The conversion of the energy in binary32\<close>














section \<open>The offset of the samples in binary32\<close>

lemma dynamic_dc_offset_f32_small:
  assumes len: "length raw_buffer = NUM_SAMPLES"
    and small: "sum_list (map unat raw_buffer) < 2 ^ 24"
  shows "dynamic_dc_offset_f32 raw_buffer = real (sum_list (map unat raw_buffer)) / 256"
proof -
  have "unat (of_nat S :: uint32) = S mod 2 ^ 32" for S
    by (simp add: unat_of_nat)
  then have "unat (sum_loop raw_buffer) = sum_list (map unat raw_buffer) mod 2 ^ 32"
    by (simp only: sum_loop_sum sum_samples_sum_list [OF len])
  moreover from small have "sum_list (map unat raw_buffer) < 2 ^ 32" by simp
  ultimately have "unat (sum_loop raw_buffer) = sum_list (map unat raw_buffer)" by simp
  then show ?thesis
    unfolding dynamic_dc_offset_f32_def
    by (simp add: round32_nat [OF small] round32_nat_div_256 [OF small] NUM_SAMPLES_def)
qed

lemma sample_f32_small:
  assumes len: "length raw_buffer = NUM_SAMPLES"
    and small: "sum_list (map unat raw_buffer) < 2 ^ 24"
    and i: "i < NUM_SAMPLES"
  shows "sample_f32 raw_buffer i
     = round32 (real (unat (raw_buffer ! i)) - real (sum_list (map unat raw_buffer)) / 256)"
proof -
  from i len have "unat (raw_buffer ! i) \<in> set (map unat raw_buffer)" by simp
  then have "unat (raw_buffer ! i) \<le> sum_list (map unat raw_buffer)"
    by (rule member_le_sum_list) simp
  with small have "unat (raw_buffer ! i) < 2 ^ 24" by simp
  then show ?thesis
    unfolding sample_f32_def
    by (simp only: round32_nat dynamic_dc_offset_f32_small [OF len small])
qed

lemma small_sum_fits:
  assumes len: "length raw_buffer = NUM_SAMPLES"
    and small: "sum_list (map unat raw_buffer) + NUM_SAMPLES * unat c < 2 ^ 24"
  shows "\<forall>x \<in> set raw_buffer. unat x + unat c < 2 ^ 32"
    and "(sum_list (map unat raw_buffer) + NUM_SAMPLES * unat c) div 2 ^ 32
           = sum_list (map unat raw_buffer) div 2 ^ 32"
proof -
  show "\<forall>x \<in> set raw_buffer. unat x + unat c < 2 ^ 32"
  proof
    fix x assume "x \<in> set raw_buffer"
    then have "unat x \<in> set (map unat raw_buffer)" by simp
    then have "unat x \<le> sum_list (map unat raw_buffer)" by (rule member_le_sum_list) simp
    moreover have "unat c \<le> NUM_SAMPLES * unat c" by (simp add: NUM_SAMPLES_def)
    ultimately have "unat x + unat c < 2 ^ 24" using small by linarith
    then show "unat x + unat c < 2 ^ 32" by simp
  qed
  from small have "sum_list (map unat raw_buffer) + NUM_SAMPLES * unat c < 2 ^ 32"
    and "sum_list (map unat raw_buffer) < 2 ^ 32" by simp_all
  then show "(sum_list (map unat raw_buffer) + NUM_SAMPLES * unat c) div 2 ^ 32
      = sum_list (map unat raw_buffer) div 2 ^ 32"
    by simp
qed

lemma shifted_buffer_window_loop_f32:
  assumes len: "length raw_buffer = NUM_SAMPLES"
    and small: "sum_list (map unat raw_buffer) + NUM_SAMPLES * unat c < 2 ^ 24"
  shows "window_loop_f32 (add_to_every_sample c raw_buffer) = window_loop_f32 raw_buffer"
proof -
  note fits = small_sum_fits(1) [OF len small]
  have len': "length (add_to_every_sample c raw_buffer) = NUM_SAMPLES"
    using len by (simp add: add_to_every_sample_def)
  have sum': "sum_list (map unat (add_to_every_sample c raw_buffer))
      = sum_list (map unat raw_buffer) + NUM_SAMPLES * unat c"
    by (rule shifted_buffer_sum [OF len fits])
  from small have small0: "sum_list (map unat raw_buffer) < 2 ^ 24" by simp
  from small have small': "sum_list (map unat (add_to_every_sample c raw_buffer)) < 2 ^ 24"
    by (simp only: sum')
  have "sample_f32 (add_to_every_sample c raw_buffer) i = sample_f32 raw_buffer i"
    if i: "i < NUM_SAMPLES" for i
  proof -
    from i len have "raw_buffer ! i \<in> set raw_buffer" by simp
    with fits have "unat (raw_buffer ! i + c) = unat (raw_buffer ! i) + unat c"
      using unat_add_lem [of "raw_buffer ! i" c] by simp
    moreover from i len have "add_to_every_sample c raw_buffer ! i = raw_buffer ! i + c"
      by (simp add: add_to_every_sample_def)
    ultimately have "real (unat (add_to_every_sample c raw_buffer ! i))
          - real (sum_list (map unat (add_to_every_sample c raw_buffer))) / 256
        = real (unat (raw_buffer ! i)) - real (sum_list (map unat raw_buffer)) / 256"
      by (simp add: sum' NUM_SAMPLES_def add_divide_distrib)
    then show ?thesis
      by (simp only: sample_f32_small [OF len' small' i] sample_f32_small [OF len small0 i])
  qed
  then show ?thesis
    unfolding window_loop_f32_def by (intro map_cong) simp_all
qed

section \<open>The claims\<close>

text \<open>
  C1 (the code departs from it). The window table has 256 coefficients in \<open>[0, 1]\<close>,
  but it is not symmetric and its maximum is not at the midpoint of the buffer: the
  initializer list has 226 entries, symmetric about index 113 where the value 1 stands,
  and the remaining 30 elements are zero. At index 1 the coefficient is 0.00015 while
  the mirrored index 254 holds 0, and the two midpoint indices 127 and 128 hold 0.8744
  and 0.8641.
\<close>

theorem C1_window_table_evaluated:
  "length HANN_WINDOW_LUT = 256
   \<and> list_all (\<lambda>w. 0 \<le> w \<and> w \<le> 1) HANN_WINDOW_LUT
   \<and> HANN_WINDOW_LUT ! 1 = 0.00015
   \<and> HANN_WINDOW_LUT ! (256 - 1 - 1) = 0
   \<and> HANN_WINDOW_LUT ! 113 = 1
   \<and> HANN_WINDOW_LUT ! 127 = 0.87440
   \<and> HANN_WINDOW_LUT ! 128 = 0.86410
   \<and> HANN_WINDOW_LUT ! 1 \<noteq> HANN_WINDOW_LUT ! (256 - 1 - 1)
   \<and> HANN_WINDOW_LUT ! 127 < HANN_WINDOW_LUT ! 113
   \<and> HANN_WINDOW_LUT ! 128 < HANN_WINDOW_LUT ! 113"
proof -
  have "list_all (\<lambda>w. 0 \<le> w \<and> w \<le> 1) HANN_WINDOW_LUT"
    by (simp add: HANN_WINDOW_LUT_def zero_filled_def HANN_WINDOW_LUT_initializers_def
        list_all_replicate)
  moreover have "HANN_WINDOW_LUT ! 1 = 0.00015" "HANN_WINDOW_LUT ! 113 = 1"
    "HANN_WINDOW_LUT ! 127 = 0.87440" "HANN_WINDOW_LUT ! 128 = 0.86410"
    by (simp_all add: HANN_WINDOW_LUT_def zero_filled_def nth_append
        HANN_WINDOW_LUT_initializers_def)
  moreover have "HANN_WINDOW_LUT ! (256 - 1 - 1) = 0"
    by (simp add: HANN_WINDOW_LUT_zero_filled)
  ultimately show ?thesis by (simp add: length_HANN_WINDOW_LUT)
qed

text \<open>
  C2 (as stated it fails). A buffer whose samples all equal \<open>2 ^ 24\<close> is a buffer of
  equal samples, but the 32-bit sum of its 256 samples wraps to 0, the offset is 0 and
  the DC-removed samples are \<open>2 ^ 24\<close>, not 0. With the exact transform the total
  energy is positive and the latest level is at least 30, not 0.
\<close>

theorem C2_wrapping_sum_counterexample:
  "dynamic_dc_offset (replicate 256 0x1000000) = 0
   \<and> sample (replicate 256 0x1000000) 0 = 16777216
   \<and> sample (replicate 256 0x1000000) 0 \<noteq> 0
   \<and> 0 < total_energy_of rfft_exact (replicate 256 0x1000000)
   \<and> 30 \<le> m_latest_dba_spl (process rfft_exact (SPL_Meter_ctor [] [])
              (replicate 256 0x1000000))"
proof -
  have "(0::real) < 327680000" by simp
  then have "0 < total_energy_of rfft_exact (replicate NUM_SAMPLES 0x1000000)"
    using wrapping_buffer_energy by (rule less_le_trans)
  moreover have "30 \<le> m_latest_dba_spl (process rfft_exact (SPL_Meter_ctor [] [])
      (replicate NUM_SAMPLES 0x1000000))"
    unfolding process_latest
    by (rule level_of_large_energy) (rule wrapping_buffer_energy)
  ultimately show ?thesis
    using wrapping_buffer_offset wrapping_buffer_sample [of 0]
    by (simp add: NUM_SAMPLES_def)
qed

text \<open>
  C2 (amended). For every buffer whose 256 samples all equal the same constant below
  \<open>2 ^ 24\<close>, so that their sum fits in 32 bits, the DC-removed samples are all 0 and,
  when the transform maps the zero signal to a zero spectrum, the total energy is 0 and
  the latest level is exactly 0.
\<close>

theorem C2_constant_buffer_is_silent:
  assumes "\<forall>i < NUM_SAMPLES. raw_buffer ! i = c"
    and "unat c < 2 ^ 24"
    and "snd (f (replicate NUM_SAMPLES 0)) = replicate NUM_SAMPLES 0"
  shows "(\<forall>i < NUM_SAMPLES. sample raw_buffer i = 0)
    \<and> window_loop raw_buffer = replicate NUM_SAMPLES 0
    \<and> total_energy_of f raw_buffer = 0
    \<and> m_latest_dba_spl (process f m raw_buffer) = 0"
proof -
  have "\<forall>i < NUM_SAMPLES. sample raw_buffer i = 0"
    using constant_buffer_sample [OF assms(1,2)] by blast
  moreover have "window_loop raw_buffer = replicate NUM_SAMPLES 0"
    by (rule constant_buffer_window_loop [OF assms(1,2)])
  moreover have silent: "total_energy_of f raw_buffer = 0"
    using assms by (rule constant_buffer_silence)
  moreover have "m_latest_dba_spl (process f m raw_buffer) = 0"
    by (simp add: process_latest silent energy_to_dba_spl_silence)
  ultimately show ?thesis by blast
qed

theorem C2_constant_buffer_is_silent_witness:
  "sample (replicate NUM_SAMPLES 2048) 0 = 0
    \<and> sample (replicate NUM_SAMPLES 2048) 255 = 0
    \<and> window_loop (replicate NUM_SAMPLES 2048) = replicate NUM_SAMPLES 0
    \<and> total_energy_of rfft_exact (replicate NUM_SAMPLES 2048) = 0
    \<and> m_latest_dba_spl (process rfft_exact (SPL_Meter_ctor [] []) (replicate NUM_SAMPLES 2048)) = 0"
proof -
  have "\<forall>i < NUM_SAMPLES. replicate NUM_SAMPLES (2048 :: uint32) ! i = 2048" by simp
  moreover have "unat (2048 :: uint32) < 2 ^ 24" by simp
  ultimately have
    "(\<forall>i < NUM_SAMPLES. sample (replicate NUM_SAMPLES 2048) i = 0)
      \<and> window_loop (replicate NUM_SAMPLES 2048) = replicate NUM_SAMPLES 0
      \<and> total_energy_of rfft_exact (replicate NUM_SAMPLES 2048) = 0
      \<and> m_latest_dba_spl (process rfft_exact (SPL_Meter_ctor [] [])
            (replicate NUM_SAMPLES 2048)) = 0"
    using rfft_exact_zero by (rule C2_constant_buffer_is_silent)
  then show ?thesis by (simp add: NUM_SAMPLES_def)
qed

text \<open>
  C3. For every input buffer the total energy that \<open>process\<close> accumulates is the sum,
  over the bins 1 to 127 (bin 0 left out), of the squared real part plus the squared
  imaginary part of the bin, times the product of the A-weighting and the microphone
  correction coefficient of that bin.
\<close>

theorem C3_total_energy_is_weighted_sum:
  "total_energy_of f raw_buffer
     = (\<Sum>i = 1..NUM_SAMPLES div 2 - 1.
          ((snd (f (window_loop raw_buffer)) ! (2 * i))\<^sup>2
            + (snd (f (window_loop raw_buffer)) ! (2 * i + 1))\<^sup>2)
          * (A_WEIGHTING_LUT_SQUARED ! i * MIC_CORRECTION_LUT_SQUARED ! i))"
  by (simp add: total_energy_of_def energy_loop_sum weighted_mag_sq_def Let_def
      NUM_SAMPLES_def power2_eq_square mult.assoc)

text \<open>
  C4. When the total energy of a call is at most 0, \<open>process\<close> stores exactly 0 as the
  latest level and does not call \<open>log10f\<close>; \<open>process\<close> is a total function of its
  arguments and has no error result. Whatever the energy, an argument handed to
  \<open>log10f\<close> is strictly positive.
\<close>

theorem C4_silence_guard:
  "(total_energy_of f raw_buffer \<le> 0 \<longrightarrow>
      m_latest_dba_spl (process f m raw_buffer) = 0
      \<and> log10f_argument (energy_to_dba_spl (total_energy_of f raw_buffer)) = None)
   \<and> (\<forall>x. log10f_argument (energy_to_dba_spl total_energy) = Some x \<longrightarrow> 0 < x)"
  by (simp add: process_latest energy_to_dba_spl_silence log10f_argument_positive)

theorem C4_silence_guard_witness:
  "total_energy_of rfft_exact (replicate NUM_SAMPLES 2048) \<le> 0
   \<and> m_latest_dba_spl (process rfft_exact (SPL_Meter_ctor [] []) (replicate NUM_SAMPLES 2048)) = 0
   \<and> log10f_argument (energy_to_dba_spl (total_energy_of rfft_exact (replicate NUM_SAMPLES 2048)))
       = None
   \<and> (\<exists>x. log10f_argument (energy_to_dba_spl 32768) = Some x \<and> 0 < x)"
proof -
  have "\<forall>i < NUM_SAMPLES. replicate NUM_SAMPLES (2048 :: uint32) ! i = 2048" by simp
  moreover have "unat (2048 :: uint32) < 2 ^ 24" by simp
  ultimately have "total_energy_of rfft_exact (replicate NUM_SAMPLES 2048) = 0"
    using rfft_exact_zero by (rule constant_buffer_silence)
  then have silent: "total_energy_of rfft_exact (replicate NUM_SAMPLES 2048) \<le> 0"
    by simp
  obtain x where x: "log10f_argument (energy_to_dba_spl 32768) = Some x"
    by (simp add: energy_to_dba_spl_def Let_def)
  from silent x show ?thesis
    using C4_silence_guard
      [of rfft_exact "replicate NUM_SAMPLES 2048" "SPL_Meter_ctor [] []" 32768]
    by simp
qed

text \<open>
  C5. A call of \<open>process\<close> sets the smoothed level to
  \<open>\<alpha> * latest + (1 - \<alpha>) * previous smoothed level\<close> with \<open>\<alpha> = 0.1\<close>, where \<open>latest\<close> is the
  level computed by the same call. The smoothed level is the only part of the object
  that the result depends on: two objects with the same smoothed level give the same
  object after the call.
\<close>

theorem C5_smoothing_update:
  "m_smoothed_dba_spl (process f m raw_buffer)
     = SMOOTHING_FACTOR * m_latest_dba_spl (process f m raw_buffer)
       + (1 - SMOOTHING_FACTOR) * m_smoothed_dba_spl m
   \<and> SMOOTHING_FACTOR = 0.1
   \<and> process f m raw_buffer
       = process f (m'\<lparr>m_smoothed_dba_spl := m_smoothed_dba_spl m\<rparr>) raw_buffer"
  by (simp add: process_def smoothing_filter_def SMOOTHING_FACTOR_def Let_def
      split: prod.split)




text \<open>
  C7 (as stated it fails). Adding \<open>2 ^ 24\<close> to every sample of the all-zero buffer makes
  the 32-bit sum of the samples wrap to 0, so the offset stays 0 and is not removed:
  with the exact transform the all-zero buffer gives the level 0 and the shifted buffer
  a level of at least 30.
\<close>

theorem C7_wrapping_sum_counterexample:
  "m_latest_dba_spl (process rfft_exact (SPL_Meter_ctor [] []) (replicate 256 0))
     \<noteq> m_latest_dba_spl (process rfft_exact (SPL_Meter_ctor [] [])
           (add_to_every_sample 0x1000000 (replicate 256 0)))"
proof -
  have "\<forall>i < NUM_SAMPLES. replicate 256 (0 :: uint32) ! i = 0"
    by (simp add: NUM_SAMPLES_def)
  moreover have "unat (0 :: uint32) < 2 ^ 24" by simp
  ultimately have "total_energy_of rfft_exact (replicate 256 0) = 0"
    using rfft_exact_zero by (rule constant_buffer_silence)
  then have "m_latest_dba_spl (process rfft_exact (SPL_Meter_ctor [] []) (replicate 256 0)) = 0"
    by (simp add: process_latest energy_to_dba_spl_silence)
  moreover have "30 \<le> m_latest_dba_spl (process rfft_exact (SPL_Meter_ctor [] [])
      (add_to_every_sample 0x1000000 (replicate 256 0)))"
    unfolding shifted_zero_buffer process_latest
    by (rule level_of_large_energy) (rule wrapping_buffer_energy)
  ultimately show ?thesis by simp
qed

text \<open>
  C7 (amended). For every buffer of 256 samples and every constant \<open>c\<close> such that the
  sum of the samples plus \<open>256 c\<close> is below \<open>2 ^ 24\<close> (as it is whenever the shifted
  samples are at most 65535), so that the 32-bit sum does not wrap and the
  conversions of the sum and of the samples to \<open>float\<close> are exact, the shifted buffer
  gives the same transform input and the same latest level as the buffer itself, in
  binary32 arithmetic and in exact arithmetic.
\<close>

theorem C7_offset_invariance:
  assumes "length raw_buffer = NUM_SAMPLES"
    and "sum_list (map unat raw_buffer) + NUM_SAMPLES * unat c < 2 ^ 24"
  shows "window_loop_f32 (add_to_every_sample c raw_buffer) = window_loop_f32 raw_buffer
    \<and> m_latest_dba_spl (process_f32 f log10f powf m (add_to_every_sample c raw_buffer))
        = m_latest_dba_spl (process_f32 f log10f powf m' raw_buffer)
    \<and> window_loop (add_to_every_sample c raw_buffer) = window_loop raw_buffer
    \<and> m_latest_dba_spl (process f m (add_to_every_sample c raw_buffer))
        = m_latest_dba_spl (process f m' raw_buffer)"
proof -
  have f32: "window_loop_f32 (add_to_every_sample c raw_buffer) = window_loop_f32 raw_buffer"
    using assms by (rule shifted_buffer_window_loop_f32)
  have exact: "window_loop (add_to_every_sample c raw_buffer) = window_loop raw_buffer"
    using assms(1) small_sum_fits [OF assms] by (rule shifted_buffer_window_loop)
  show ?thesis
    by (simp add: f32 exact process_f32_def process_latest total_energy_of_def Let_def
        split: prod.split)
qed

theorem C7_offset_invariance_witness:
  "window_loop_f32 (add_to_every_sample 500 (replicate 128 1000 @ replicate 128 3000))
     = window_loop_f32 (replicate 128 1000 @ replicate 128 3000)
   \<and> m_latest_dba_spl (process_f32 rfft_exact log10f_rounded powf_rounded (SPL_Meter_ctor [] [])
          (add_to_every_sample 500 (replicate 128 1000 @ replicate 128 3000)))
       = m_latest_dba_spl (process_f32 rfft_exact log10f_rounded powf_rounded
          (SPL_Meter_ctor [] []) (replicate 128 1000 @ replicate 128 3000))
   \<and> window_loop (add_to_every_sample 500 (replicate 128 1000 @ replicate 128 3000))
       = window_loop (replicate 128 1000 @ replicate 128 3000)
   \<and> m_latest_dba_spl (process rfft_exact (SPL_Meter_ctor [] [])
          (add_to_every_sample 500 (replicate 128 1000 @ replicate 128 3000)))
       = m_latest_dba_spl (process rfft_exact (SPL_Meter_ctor [] [])
          (replicate 128 1000 @ replicate 128 3000))"
proof -
  have "length (replicate 128 1000 @ replicate 128 (3000 :: uint32)) = NUM_SAMPLES"
    by (simp add: NUM_SAMPLES_def)
  moreover have
    "sum_list (map unat (replicate 128 1000 @ replicate 128 (3000 :: uint32)))
        + NUM_SAMPLES * unat (500 :: uint32) < 2 ^ 24"
    by (simp add: NUM_SAMPLES_def sum_list_replicate)
  ultimately show ?thesis
    by (rule C7_offset_invariance)
qed




text \<open>
  C9. For every input buffer, the buffer that the centering and windowing loop hands to
  the transform is 0 at the indices 226 to 255, whatever the samples there: the window
  table has 226 initializers and its last 30 elements are zero.
\<close>

theorem C9_fft_input_tail_is_zero:
  assumes "226 \<le> i" and "i \<le> 255"
  shows "window_loop raw_buffer ! i = 0"
  using assms by (simp add: window_loop_nth HANN_WINDOW_LUT_zero_filled)

theorem C9_fft_input_tail_is_zero_witness:
  "window_loop (replicate 256 4095) ! 240 = 0"
  using C9_fft_input_tail_is_zero [of 240 "replicate 256 4095"] by simp

text \<open>
  C10. The A-weighting coefficient of every bin from 64 to 127 is 0, so the weighted
  term of such a bin is 0 for every transform output, the total energy is the sum over
  the bins 1 to 63 alone, and two transform outputs that agree below index 128 give the
  same total energy.
\<close>

theorem C10_upper_half_has_no_weight:
  "(\<forall>i. 64 \<le> i \<and> i \<le> 127 \<longrightarrow>
      A_WEIGHTING_LUT_SQUARED ! i = 0 \<and> weighted_mag_sq fft_output i = 0)
   \<and> energy_loop fft_output = (\<Sum>i = 1..63. weighted_mag_sq fft_output i)
   \<and> ((\<forall>j < 128. fft_output ! j = fft_output' ! j) \<longrightarrow>
        energy_loop fft_output = energy_loop fft_output')"
proof -
  have "energy_loop fft_output = energy_loop fft_output'"
    if agree: "\<forall>j < 128. fft_output ! j = fft_output' ! j"
  proof -
    have "weighted_mag_sq fft_output i = weighted_mag_sq fft_output' i"
      if "i \<in> {1..63}" for i
    proof -
      from that have "2 * i < 128" and "2 * i + 1 < 128" by auto
      with agree show ?thesis by (simp add: weighted_mag_sq_def)
    qed
    then show ?thesis by (simp add: energy_loop_lower_half)
  qed
  then show ?thesis
    by (simp add: A_WEIGHTING_LUT_SQUARED_zero weighted_mag_sq_upper_half
        energy_loop_lower_half)
qed

theorem C10_upper_half_has_no_weight_witness:
  "A_WEIGHTING_LUT_SQUARED ! 100 = 0
   \<and> weighted_mag_sq (replicate 128 1 @ replicate 128 5) 100 = 0
   \<and> energy_loop (replicate 128 1 @ replicate 128 5)
       = energy_loop (replicate 128 1 @ replicate 128 7)"
proof -
  have "\<forall>j < 128. (replicate 128 1 @ replicate 128 (5::real)) ! j
          = (replicate 128 1 @ replicate 128 7) ! j"
    by (simp add: nth_append)
  then show ?thesis
    using C10_upper_half_has_no_weight
      [of "replicate 128 1 @ replicate 128 5" "replicate 128 1 @ replicate 128 7"]
    by simp
qed

end
